theory Spec2Isabelle
  imports Complex_Main
begin

section \<open>Number model\<close>

text \<open>
  The library computes on numpy \<open>float64\<close> arrays. The embedding takes the finite values
  as exact reals (no rounding, no overflow, no underflow) and arrays as lists. Where numpy
  leaves the finite values without raising, by a true division whose divisor is zero, the
  result is written out as one of the IEEE special values.
\<close>

datatype npfloat = Finite real | PosInf | NegInf | NaN

text \<open>The Python exceptions the modelled code can raise; all of them are \<open>ValueError\<close>.\<close>

datatype py_error = ValueError string

text \<open>\<open>a / b\<close> on two finite \<open>float64\<close> values: numpy warns and does not raise when \<open>b\<close> is zero.\<close>

definition np_divide :: "real \<Rightarrow> real \<Rightarrow> npfloat" where
  "np_divide a b =
     (if b \<noteq> 0 then Finite (a / b)
      else if a = 0 then NaN
      else if 0 < a then PosInf else NegInf)"

text \<open>\<open>np.max\<close>: a zero-size array has no maximum and the reduction raises.\<close>

fun np_max :: "real list \<Rightarrow> py_error + real" where
  "np_max [] = Inl (ValueError ''zero-size array to reduction operation maximum which has no identity'')"
| "np_max (x # xs) = Inr (fold max xs x)"

text \<open>
  \<open>np.linspace(start, stop, num)\<close> with the default \<open>endpoint=True\<close>: a negative \<open>num\<close>
  raises; otherwise the samples are \<open>arange(0, num)\<close> scaled by the step (or by
  \<open>delta\<close> after a division by \<open>div\<close> when the step is zero, or by \<open>delta\<close> alone when
  \<open>div\<close> is not positive), shifted by \<open>start\<close>, and the last one is overwritten by
  \<open>stop\<close> when there are at least two.
\<close>

definition np_linspace :: "real \<Rightarrow> real \<Rightarrow> int \<Rightarrow> py_error + real list" where
  "np_linspace start stop num =
     (if num < 0 then Inl (ValueError ''Number of samples must be non-negative.'')
      else
        let n = nat num;
            dv = num - 1;
            y = map real [0..<n];
            delta = stop - start;
            y = (if 0 < dv then
                   (let step = delta / real_of_int dv in
                    if step = 0 then map (\<lambda>v. v / real_of_int dv * delta) y
                    else map (\<lambda>v. v * step) y)
                 else map (\<lambda>v. v * delta) y);
            y = map (\<lambda>v. v + start) y;
            y = (if 1 < num then y[n - 1 := stop] else y)
        in Inr y)"

section \<open>The simulator\<close>

record WaveFunction =
  wavelength :: real
  amplitude :: real
  frequency :: real
  k :: real

record DoubleslitSimulator =
  wave :: WaveFunction
  slit_width :: real
  slit_separation :: real
  screen_distance :: real

text \<open>The two constructors, with the defaults of the source given as constants.\<close>

definition WaveFunction_init :: "real \<Rightarrow> real \<Rightarrow> WaveFunction" where
  "WaveFunction_init wl amp =
     \<lparr>wavelength = wl, amplitude = amp, frequency = 3 * 10 ^ 8 / wl, k = 2 * pi / wl\<rparr>"

definition DoubleslitSimulator_init :: "real \<Rightarrow> real \<Rightarrow> real \<Rightarrow> real \<Rightarrow> DoubleslitSimulator" where
  "DoubleslitSimulator_init wl sw ss sd =
     \<lparr>wave = WaveFunction_init wl 1, slit_width = sw, slit_separation = ss,
      screen_distance = sd\<rparr>"

definition default_simulator :: DoubleslitSimulator where
  "default_simulator =
     DoubleslitSimulator_init (650 / 10 ^ 9) (50 / 10 ^ 6) (200 / 10 ^ 6) 1"

text \<open>
  The setups the specification calls valid: all four parameters positive. The divisions by
  \<open>screen_distance\<close> and by \<open>wavelength\<close> below are real divisions; they are numpy's on such
  a setup, where neither divisor is zero.
\<close>

definition valid_setup :: "DoubleslitSimulator \<Rightarrow> bool" where
  "valid_setup self \<longleftrightarrow>
     0 < wavelength (wave self) \<and> 0 < slit_width self \<and>
     0 < slit_separation self \<and> 0 < screen_distance self"

text \<open>\<open>single_slit_intensity\<close>: whole-array operations, one \<open>map\<close> for each line of the source.\<close>

definition single_slit_intensity :: "DoubleslitSimulator \<Rightarrow> real list \<Rightarrow> real list" where
  "single_slit_intensity self y_positions =
     (let theta = map (\<lambda>y. arctan (y / screen_distance self)) y_positions;
          beta = map (\<lambda>t. (pi * slit_width self * sin t) / wavelength (wave self)) theta;
          beta_safe = map (\<lambda>b. if \<bar>b\<bar> < 1 / 10 ^ 10 then 1 / 10 ^ 10 else b) beta;
          intensity = map (\<lambda>b. (sin b / b) ^ 2) beta_safe
      in intensity)"

definition double_slit_intensity :: "DoubleslitSimulator \<Rightarrow> real list \<Rightarrow> real list" where
  "double_slit_intensity self y_positions =
     (let theta = map (\<lambda>y. arctan (y / screen_distance self)) y_positions;
          beta = map (\<lambda>t. (pi * slit_width self * sin t) / wavelength (wave self)) theta;
          beta_safe = map (\<lambda>b. if \<bar>b\<bar> < 1 / 10 ^ 10 then 1 / 10 ^ 10 else b) beta;
          single_slit_term = map (\<lambda>b. (sin b / b) ^ 2) beta_safe;
          delta = map (\<lambda>t. (pi * slit_separation self * sin t) / wavelength (wave self)) theta;
          interference_term = map (\<lambda>d. (cos d) ^ 2) delta;
          intensity = map2 (*) single_slit_term interference_term
      in intensity)"

text \<open>The last line of \<open>fraunhofer_diffraction\<close>: \<open>intensity / np.max(intensity)\<close>.\<close>

definition normalize :: "real list \<Rightarrow> py_error + npfloat list" where
  "normalize intensity =
     (case np_max intensity of
        Inl e \<Rightarrow> Inl e
      | Inr m \<Rightarrow> Inr (map (\<lambda>v. np_divide v m) intensity))"

definition fraunhofer_diffraction ::
  "DoubleslitSimulator \<Rightarrow> real list \<Rightarrow> bool \<Rightarrow> py_error + npfloat list" where
  "fraunhofer_diffraction self y_positions double_slit =
     (let intensity = (if double_slit then double_slit_intensity self y_positions
                       else single_slit_intensity self y_positions)
      in normalize intensity)"

definition simulate_experiment ::
  "DoubleslitSimulator \<Rightarrow> real \<Rightarrow> int \<Rightarrow> bool \<Rightarrow> py_error + (real list \<times> npfloat list)" where
  "simulate_experiment self screen_width resolution double_slit =
     (case np_linspace (- screen_width / 2) (screen_width / 2) resolution of
        Inl e \<Rightarrow> Inl e
      | Inr y_positions \<Rightarrow>
          (case fraunhofer_diffraction self y_positions double_slit of
             Inl e \<Rightarrow> Inl e
           | Inr intensity \<Rightarrow> Inr (y_positions, intensity)))"

section \<open>Pointwise form of the raw intensities\<close>

text \<open>The phase parameters and the guarded phase at one screen position.\<close>

definition beta_at :: "DoubleslitSimulator \<Rightarrow> real \<Rightarrow> real" where
  "beta_at self y =
     pi * slit_width self * sin (arctan (y / screen_distance self)) / wavelength (wave self)"

definition delta_at :: "DoubleslitSimulator \<Rightarrow> real \<Rightarrow> real" where
  "delta_at self y =
     pi * slit_separation self * sin (arctan (y / screen_distance self)) / wavelength (wave self)"

definition beta_safe_at :: "DoubleslitSimulator \<Rightarrow> real \<Rightarrow> real" where
  "beta_safe_at self y =
     (if \<bar>beta_at self y\<bar> < 1 / 10 ^ 10 then 1 / 10 ^ 10 else beta_at self y)"

lemma length_single_slit_intensity [simp]:
  "length (single_slit_intensity self ys) = length ys"
  by (simp add: single_slit_intensity_def)

lemma length_double_slit_intensity [simp]:
  "length (double_slit_intensity self ys) = length ys"
  by (simp add: double_slit_intensity_def)

lemma single_slit_intensity_nth:
  "i < length ys \<Longrightarrow>
   single_slit_intensity self ys ! i = (sin (beta_safe_at self (ys ! i)) / beta_safe_at self (ys ! i)) ^ 2"
  by (simp add: single_slit_intensity_def beta_safe_at_def beta_at_def)

lemma double_slit_intensity_nth:
  "i < length ys \<Longrightarrow>
   double_slit_intensity self ys ! i =
     (sin (beta_safe_at self (ys ! i)) / beta_safe_at self (ys ! i)) ^ 2 *
     (cos (delta_at self (ys ! i))) ^ 2"
  by (simp add: double_slit_intensity_def beta_safe_at_def beta_at_def delta_at_def)

lemma beta_safe_at_nonzero: "beta_safe_at self y \<noteq> 0"
  by (auto simp: beta_safe_at_def)

lemma beta_safe_at_zero: "beta_safe_at self 0 = 1 / 10 ^ 10"
  by (simp add: beta_safe_at_def beta_at_def)

lemma beta_at_uminus: "beta_at self (- y) = - beta_at self y"
  by (simp add: beta_at_def arctan_minus)

lemma delta_at_uminus: "delta_at self (- y) = - delta_at self y"
  by (simp add: delta_at_def arctan_minus)

lemma sinc_sq_even:
  "(sin (beta_safe_at self (- y)) / beta_safe_at self (- y)) ^ 2 =
   (sin (beta_safe_at self y) / beta_safe_at self y) ^ 2"
  by (simp add: beta_safe_at_def beta_at_uminus power2_eq_square)

lemma sin_less_self:
  fixes x :: real
  assumes "0 < x"
  shows "sin x < x"
proof (cases "x < 2")
  case True
  let ?h = "x / 2"
  have h: "0 < ?h" "?h < pi" "?h < 2" using assms True pi_ge_two by simp_all
  have c1: "cos ?h < 1" using cos_monotone_0_pi [of 0 ?h] h by simp
  have s0: "0 < sin ?h" using h by (intro sin_gt_zero_02)
  have s1: "sin ?h \<le> ?h" using h by (intro sin_x_le_x) simp
  have "sin x = 2 * sin ?h * cos ?h" using sin_double [of ?h] by simp
  also have "\<dots> < 2 * sin ?h * 1" using c1 s0 by (intro mult_strict_left_mono) simp_all
  also have "\<dots> \<le> x" using s1 by simp
  finally show ?thesis .
next
  case False
  have "sin x \<le> 1" by simp
  then show ?thesis using False by linarith
qed

lemma sinc_sq_bounds:
  fixes x :: real
  assumes "0 < x" "x < 2"
  shows "0 < (sin x / x) ^ 2" and "(sin x / x) ^ 2 < 1"
proof -
  have s0: "0 < sin x" using assms by (intro sin_gt_zero_02)
  have s1: "sin x < x" using assms(1) by (rule sin_less_self)
  have q0: "0 < sin x / x" using s0 assms(1) by simp
  have q1: "sin x / x < 1" using s1 assms(1) by simp
  show "0 < (sin x / x) ^ 2" using q0 by (rule zero_less_power)
  have "(sin x / x) ^ 2 < 1 ^ 2" using q0 q1 by (intro power_strict_mono) simp_all
  then show "(sin x / x) ^ 2 < 1" by simp
qed

text \<open>A grid symmetric about 0: \<open>grid[i] = -grid[N-1-i]\<close> at every index.\<close>

definition symmetric_about_zero :: "real list \<Rightarrow> bool" where
  "symmetric_about_zero grid \<longleftrightarrow>
     list_all (\<lambda>i. grid ! i = - (grid ! (length grid - 1 - i))) [0..<length grid]"

lemma symmetric_about_zeroD:
  assumes "symmetric_about_zero grid" and "i < length grid"
  shows "grid ! i = - (grid ! (length grid - 1 - i))"
proof -
  have "\<forall>j\<in>set [0..<length grid]. grid ! j = - (grid ! (length grid - 1 - j))"
    using assms(1) unfolding symmetric_about_zero_def list_all_iff .
  moreover have "i \<in> set [0..<length grid]" using assms(2) by simp
  ultimately show ?thesis by (rule bspec)
qed

section \<open>Claims on the raw intensities\<close>

text \<open>
  C2. At every position of the grid, on every valid setup, the raw double-slit intensity is
  the raw single-slit intensity at that position (same guarded phase) times the
  interference term \<open>cos\<^sup>2 \<delta>\<close>, where
  \<open>\<delta> = \<pi> \<cdot> slit_separation \<cdot> sin(atan(y / screen_distance)) / wavelength\<close>; the two arrays
  have the length of the grid.
\<close>

theorem double_slit_is_single_slit_times_interference:
  assumes "valid_setup self" and "i < length y_positions"
  shows "length (double_slit_intensity self y_positions) = length (single_slit_intensity self y_positions) \<and>
         double_slit_intensity self y_positions ! i =
           single_slit_intensity self y_positions ! i *
           (cos (pi * slit_separation self *
                 sin (arctan (y_positions ! i / screen_distance self)) / wavelength (wave self))) ^ 2"
  using assms(2)
  by (simp add: double_slit_intensity_nth single_slit_intensity_nth delta_at_def)

lemma valid_default_simulator: "valid_setup default_simulator"
  by (simp add: valid_setup_def default_simulator_def DoubleslitSimulator_init_def
      WaveFunction_init_def)

theorem double_slit_is_single_slit_times_interference_witness:
  "valid_setup default_simulator \<and>
   double_slit_intensity default_simulator [- 1 / 200, 0, 1 / 200] ! 2 =
     single_slit_intensity default_simulator [- 1 / 200, 0, 1 / 200] ! 2 *
     (cos (pi * slit_separation default_simulator *
           sin (arctan ([- 1 / 200, 0, 1 / 200] ! 2 / screen_distance default_simulator)) /
           wavelength (wave default_simulator))) ^ 2"
proof -
  have l: "2 < length [- 1 / 200, 0, 1 / 200 :: real]" by simp
  from double_slit_is_single_slit_times_interference [OF valid_default_simulator l]
  show ?thesis using valid_default_simulator by blast
qed

text \<open>
  C4. On a grid symmetric about 0 and a valid setup, the single-slit and the double-slit
  raw intensities are mirror-symmetric: \<open>intensity[i] = intensity[N-1-i]\<close> at every index,
  exactly (so within \<open>10\<^sup>-\<^sup>9\<close> on a grid of even length, and with the centre of a grid of odd
  length equal to itself).
\<close>

theorem intensity_symmetric_on_symmetric_grid:
  assumes "valid_setup self" and "symmetric_about_zero grid" and "i < length grid"
  shows "single_slit_intensity self grid ! i = single_slit_intensity self grid ! (length grid - 1 - i) \<and>
         double_slit_intensity self grid ! i = double_slit_intensity self grid ! (length grid - 1 - i) \<and>
         \<bar>single_slit_intensity self grid ! i - single_slit_intensity self grid ! (length grid - 1 - i)\<bar>
           \<le> 1 / 10 ^ 9 \<and>
         \<bar>double_slit_intensity self grid ! i - double_slit_intensity self grid ! (length grid - 1 - i)\<bar>
           \<le> 1 / 10 ^ 9"
proof -
  let ?j = "length grid - 1 - i"
  have j: "?j < length grid" using assms(3) by simp
  have y: "grid ! i = - (grid ! ?j)"
    using assms(2,3) by (rule symmetric_about_zeroD)
  have s: "single_slit_intensity self grid ! i = single_slit_intensity self grid ! ?j"
    by (simp only: single_slit_intensity_nth [OF assms(3)] single_slit_intensity_nth [OF j] y
        sinc_sq_even)
  have d: "double_slit_intensity self grid ! i = double_slit_intensity self grid ! ?j"
    by (simp only: double_slit_intensity_nth [OF assms(3)] double_slit_intensity_nth [OF j] y
        sinc_sq_even delta_at_uminus cos_minus)
  show ?thesis using s d by simp
qed

theorem intensity_symmetric_on_symmetric_grid_witness:
  "valid_setup default_simulator \<and> symmetric_about_zero [- 1 / 100, - 1 / 300, 1 / 300, 1 / 100] \<and>
   single_slit_intensity default_simulator [- 1 / 100, - 1 / 300, 1 / 300, 1 / 100] ! 0 =
     single_slit_intensity default_simulator [- 1 / 100, - 1 / 300, 1 / 300, 1 / 100] ! 3 \<and>
   double_slit_intensity default_simulator [- 1 / 100, - 1 / 300, 1 / 300, 1 / 100] ! 0 =
     double_slit_intensity default_simulator [- 1 / 100, - 1 / 300, 1 / 300, 1 / 100] ! 3"
proof -
  have g: "symmetric_about_zero [- 1 / 100, - 1 / 300, 1 / 300, 1 / 100]"
    unfolding symmetric_about_zero_def by (simp add: upt_conv_Cons)
  have l: "0 < length [- 1 / 100, - 1 / 300, 1 / 300, 1 / 100 :: real]" by simp
  have e: "length [- 1 / 100, - 1 / 300, 1 / 300, 1 / 100 :: real] - 1 - 0 = 3" by simp
  note t = intensity_symmetric_on_symmetric_grid [OF valid_default_simulator g l, unfolded e]
  from t valid_default_simulator g show ?thesis by blast
qed

lemma np_max_Max: "xs \<noteq> [] \<Longrightarrow> np_max xs = Inr (Max (set xs))"
  by (cases xs) (simp_all add: Max.set_eq_fold [symmetric])

lemma normalize_nonempty:
  "xs \<noteq> [] \<Longrightarrow> normalize xs = Inr (map (\<lambda>v. np_divide v (Max (set xs))) xs)"
  by (simp add: normalize_def np_max_Max)

lemma normalize_empty:
  "normalize [] = Inl (ValueError ''zero-size array to reduction operation maximum which has no identity'')"
  by (simp add: normalize_def)

lemma np_linspace_negative:
  "num < 0 \<Longrightarrow> np_linspace start stop num = Inl (ValueError ''Number of samples must be non-negative.'')"
  by (simp add: np_linspace_def)

lemma np_linspace_returns:
  assumes "0 \<le> num"
  shows "\<exists>y. np_linspace start stop num = Inr y \<and> length y = nat num"
  using assms by (simp add: np_linspace_def Let_def)

lemma np_linspace_one: "np_linspace start stop 1 = Inr [start]"
  by (simp add: np_linspace_def Let_def)

lemma np_linspace_zero_width:
  assumes "0 \<le> num"
  shows "np_linspace 0 0 num = Inr (replicate (nat num) 0)"
proof -
  have "map (\<lambda>v. v * 0 + (0::real)) (map real [0..<nat num]) = replicate (nat num) 0"
    by (simp add: map_replicate_const)
  moreover have "(replicate (nat num) (0::real))[nat num - 1 := 0] = replicate (nat num) 0"
    by (simp add: list_eq_iff_nth_eq nth_list_update)
  ultimately show ?thesis using assms
    by (simp add: np_linspace_def Let_def comp_def map_replicate_const)
qed


lemma length_raw_intensity:
  "length (if ds then double_slit_intensity self ys else single_slit_intensity self ys) = length ys"
  by simp

lemma fraunhofer_diffraction_nonempty:
  assumes "ys \<noteq> []"
  shows "\<exists>ints. fraunhofer_diffraction self ys ds = Inr ints \<and> length ints = length ys"
proof -
  let ?raw = "if ds then double_slit_intensity self ys else single_slit_intensity self ys"
  have "?raw \<noteq> []" using assms length_raw_intensity [of ds self ys] by (metis length_0_conv)
  then have "normalize ?raw = Inr (map (\<lambda>v. np_divide v (Max (set ?raw))) ?raw)"
    by (rule normalize_nonempty)
  then show ?thesis
    unfolding fraunhofer_diffraction_def Let_def using length_raw_intensity [of ds self ys]
    by (metis length_map)
qed

lemma fraunhofer_diffraction_empty:
  "fraunhofer_diffraction self [] ds =
     Inl (ValueError ''zero-size array to reduction operation maximum which has no identity'')"
  by (simp add: fraunhofer_diffraction_def single_slit_intensity_def double_slit_intensity_def
      normalize_empty)

lemma simulate_experiment_negative:
  "resolution < 0 \<Longrightarrow>
   simulate_experiment self w resolution ds = Inl (ValueError ''Number of samples must be non-negative.'')"
  by (simp add: simulate_experiment_def np_linspace_negative)

lemma simulate_experiment_zero:
  "simulate_experiment self w 0 ds =
     Inl (ValueError ''zero-size array to reduction operation maximum which has no identity'')"
proof -
  have "np_linspace (- w / 2) (w / 2) 0 = Inr []"
    using np_linspace_returns [of 0 "- w / 2" "w / 2"] by auto
  then show ?thesis by (simp add: simulate_experiment_def fraunhofer_diffraction_empty)
qed

lemma simulate_experiment_positive:
  assumes "1 \<le> resolution"
  shows "\<exists>grid ints. simulate_experiment self w resolution ds = Inr (grid, ints) \<and>
           np_linspace (- w / 2) (w / 2) resolution = Inr grid \<and>
           length grid = nat resolution \<and> length ints = nat resolution"
proof -
  obtain grid where g: "np_linspace (- w / 2) (w / 2) resolution = Inr grid"
      and lg: "length grid = nat resolution"
    using np_linspace_returns [of resolution "- w / 2" "w / 2"] assms by auto
  have "grid \<noteq> []" using lg assms by auto
  then obtain ints where i: "fraunhofer_diffraction self grid ds = Inr ints"
      and li: "length ints = length grid"
    using fraunhofer_diffraction_nonempty by blast
  show ?thesis using g lg i li by (simp add: simulate_experiment_def)
qed

lemma sinc_sq_eps_pos: "0 < (sin (1 / 10 ^ 10 :: real) / (1 / 10 ^ 10)) ^ 2"
  by (rule sinc_sq_bounds; simp)

lemma single_slit_intensity_centre:
  "single_slit_intensity self (replicate n 0) = replicate n ((sin (1 / 10 ^ 10) / (1 / 10 ^ 10)) ^ 2)"
  by (simp add: single_slit_intensity_def)

lemma double_slit_intensity_centre:
  "double_slit_intensity self (replicate n 0) = replicate n ((sin (1 / 10 ^ 10) / (1 / 10 ^ 10)) ^ 2)"
  by (simp add: double_slit_intensity_def zip_replicate)

lemma normalize_replicate:
  assumes "0 < n" and "v \<noteq> 0"
  shows "normalize (replicate n v) = Inr (replicate n (Finite 1))"
proof -
  have "replicate n v \<noteq> []" using assms(1) by simp
  moreover have "Max (set (replicate n v)) = v" using assms(1) by simp
  ultimately show ?thesis using assms(2)
    by (simp add: normalize_nonempty np_divide_def)
qed

lemma simulate_experiment_zero_width:
  assumes "1 \<le> resolution"
  shows "simulate_experiment self 0 resolution ds =
           Inr (replicate (nat resolution) 0, replicate (nat resolution) (Finite 1))"
proof -
  have g: "np_linspace (- 0 / 2) (0 / 2) resolution = Inr (replicate (nat resolution) 0)"
    using np_linspace_zero_width [of resolution] assms by simp
  have n: "0 < nat resolution" using assms by simp
  have v: "(sin (1 / 10 ^ 10 :: real) / (1 / 10 ^ 10)) ^ 2 \<noteq> 0"
    using sinc_sq_eps_pos by simp
  have "fraunhofer_diffraction self (replicate (nat resolution) 0) ds =
          Inr (replicate (nat resolution) (Finite 1))"
    unfolding fraunhofer_diffraction_def Let_def
    by (cases ds) (simp_all only: if_True if_False single_slit_intensity_centre
        double_slit_intensity_centre normalize_replicate [OF n v])
  then show ?thesis using g by (simp add: simulate_experiment_def)
qed

lemma simulate_experiment_one:
  "\<exists>v. simulate_experiment self w 1 ds = Inr ([- w / 2], [v])"
proof -
  obtain ints where i: "fraunhofer_diffraction self [- w / 2] ds = Inr ints"
      and li: "length ints = length [- w / 2]"
    using fraunhofer_diffraction_nonempty [of "[- w / 2]" self ds] by blast
  from li obtain v where "ints = [v]" by (cases ints) auto
  then show ?thesis using i by (simp add: simulate_experiment_def np_linspace_one)
qed


section \<open>Claims on normalisation and on the parameters of a run\<close>

text \<open>
  C5, as the code has it. The normalisation has no guard for a degenerate input: on every
  non-empty raw array, whatever the sign of its maximum, it returns the elementwise
  quotients by the maximum. When the maximum is positive these are the ordinary quotients.
  When the maximum is zero they are numpy's \<open>nan\<close> and \<open>\<plusminus>inf\<close>, and nothing is raised.
  Only the empty array fails, with the \<open>ValueError\<close> of \<open>np.max\<close>.
\<close>

theorem normalize_divides_without_guard:
  "(intensity \<noteq> [] \<longrightarrow>
      normalize intensity = Inr (map (\<lambda>v. np_divide v (Max (set intensity))) intensity)) \<and>
   (intensity \<noteq> [] \<and> 0 < Max (set intensity) \<longrightarrow>
      normalize intensity = Inr (map (\<lambda>v. Finite (v / Max (set intensity))) intensity)) \<and>
   (intensity = [] \<longrightarrow>
      normalize intensity =
        Inl (ValueError ''zero-size array to reduction operation maximum which has no identity''))"
proof (intro conjI impI)
  assume "intensity \<noteq> []"
  then show "normalize intensity = Inr (map (\<lambda>v. np_divide v (Max (set intensity))) intensity)"
    by (rule normalize_nonempty)
next
  assume a: "intensity \<noteq> [] \<and> 0 < Max (set intensity)"
  then have "normalize intensity = Inr (map (\<lambda>v. np_divide v (Max (set intensity))) intensity)"
    by (simp add: normalize_nonempty)
  moreover have "np_divide v (Max (set intensity)) = Finite (v / Max (set intensity))" for v
    using a by (simp add: np_divide_def)
  ultimately show "normalize intensity = Inr (map (\<lambda>v. Finite (v / Max (set intensity))) intensity)"
    by simp
next
  assume "intensity = []"
  then show "normalize intensity =
      Inl (ValueError ''zero-size array to reduction operation maximum which has no identity'')"
    by (simp add: normalize_empty)
qed

theorem normalize_divides_without_guard_witness:
  "normalize [1, 4, 2] = Inr [Finite (1 / 4), Finite 1, Finite (2 / 4)]"
proof -
  have m: "Max (set [1, 4, 2 :: real]) = 4" by simp
  have ne: "[1, 4, 2 :: real] \<noteq> [] \<and> 0 < Max (set [1, 4, 2 :: real])" by simp
  from normalize_divides_without_guard [of "[1, 4, 2]", THEN conjunct2, THEN conjunct1, THEN mp, OF ne]
  show ?thesis unfolding m by simp
qed

theorem normalize_degenerate_counterexample:
  "normalize [0, 0] = Inr [NaN, NaN] \<and> normalize [- 1, - 2] = Inr [Finite 1, Finite 2]"
  by (simp add: normalize_def np_divide_def)

text \<open>
  C6, as the code has it. \<open>simulate_experiment\<close> validates neither the resolution nor the
  screen width. On a valid setup it fails only for a resolution below 1: with the
  \<open>ValueError\<close> of \<open>np.linspace\<close> when the resolution is negative, with the one of \<open>np.max\<close>
  on the empty array when it is 0. For every resolution from 1 on and every screen width it
  returns a grid and an intensity array of that length: the one-point grid
  \<open>[-screen_width/2]\<close> for resolution 1, and for screen width 0 an all-zero grid with every
  intensity 1.
\<close>

theorem simulate_experiment_validates_nothing:
  assumes "valid_setup self"
  shows "(resolution < 0 \<longrightarrow>
            simulate_experiment self screen_width resolution double_slit =
              Inl (ValueError ''Number of samples must be non-negative.'')) \<and>
         (resolution = 0 \<longrightarrow>
            simulate_experiment self screen_width resolution double_slit =
              Inl (ValueError ''zero-size array to reduction operation maximum which has no identity'')) \<and>
         (1 \<le> resolution \<longrightarrow>
            (\<exists>grid ints. simulate_experiment self screen_width resolution double_slit = Inr (grid, ints) \<and>
               length grid = nat resolution \<and> length ints = nat resolution)) \<and>
         (resolution = 1 \<longrightarrow>
            (\<exists>v. simulate_experiment self screen_width resolution double_slit =
               Inr ([- screen_width / 2], [v]))) \<and>
         (1 \<le> resolution \<and> screen_width = 0 \<longrightarrow>
            simulate_experiment self screen_width resolution double_slit =
              Inr (replicate (nat resolution) 0, replicate (nat resolution) (Finite 1)))"
proof (intro conjI impI)
  assume "resolution < 0"
  then show "simulate_experiment self screen_width resolution double_slit =
      Inl (ValueError ''Number of samples must be non-negative.'')"
    by (rule simulate_experiment_negative)
next
  assume "resolution = 0"
  then show "simulate_experiment self screen_width resolution double_slit =
      Inl (ValueError ''zero-size array to reduction operation maximum which has no identity'')"
    by (simp only: simulate_experiment_zero)
next
  assume "1 \<le> resolution"
  then show "\<exists>grid ints. simulate_experiment self screen_width resolution double_slit = Inr (grid, ints) \<and>
      length grid = nat resolution \<and> length ints = nat resolution"
    using simulate_experiment_positive [of resolution self screen_width double_slit] by blast
next
  assume "resolution = 1"
  then show "\<exists>v. simulate_experiment self screen_width resolution double_slit =
      Inr ([- screen_width / 2], [v])"
    using simulate_experiment_one [of self screen_width double_slit] by simp
next
  assume "1 \<le> resolution \<and> screen_width = 0"
  then show "simulate_experiment self screen_width resolution double_slit =
      Inr (replicate (nat resolution) 0, replicate (nat resolution) (Finite 1))"
    using simulate_experiment_zero_width [of resolution self double_slit] by simp
qed

theorem simulate_experiment_validates_nothing_witness:
  "valid_setup default_simulator \<and>
   simulate_experiment default_simulator 0 3 True =
     Inr ([0, 0, 0], [Finite 1, Finite 1, Finite 1]) \<and>
   simulate_experiment default_simulator (1 / 100) 0 True =
     Inl (ValueError ''zero-size array to reduction operation maximum which has no identity'')"
proof -
  have r: "(1::int) \<le> 3 \<and> (0::real) = 0" by simp
  note t = simulate_experiment_validates_nothing [OF valid_default_simulator]
  have a: "simulate_experiment default_simulator 0 3 True =
      Inr (replicate (nat 3) 0, replicate (nat 3) (Finite 1))"
    using t [of 3 0 True] r by blast
  have b: "simulate_experiment default_simulator (1 / 100) 0 True =
      Inl (ValueError ''zero-size array to reduction operation maximum which has no identity'')"
    using t [of 0 "1 / 100" True] by blast
  have n: "replicate (nat 3) x = [x, x, x]" for x :: 'a
    by (simp add: numeral_3_eq_3)
  show ?thesis using valid_default_simulator a b unfolding n by blast
qed

theorem simulate_experiment_invalid_parameters_counterexample:
  "simulate_experiment default_simulator 0 2 True = Inr ([0, 0], [Finite 1, Finite 1]) \<and>
   map_sum id (\<lambda>(grid, ints). (grid, length ints)) (simulate_experiment default_simulator (1 / 100) 1 True) =
     Inr ([- 1 / 200], 1)"
proof -
  have a: "simulate_experiment default_simulator 0 2 True =
      Inr (replicate (nat 2) 0, replicate (nat 2) (Finite 1))"
    by (rule simulate_experiment_zero_width) simp
  have n: "replicate (nat 2) x = [x, x]" for x :: 'a
    by (simp add: numeral_2_eq_2)
  obtain v where "simulate_experiment default_simulator (1 / 100) 1 True = Inr ([- (1 / 100) / 2], [v])"
    using simulate_experiment_one by blast
  then have b: "map_sum id (\<lambda>(grid, ints). (grid, length ints))
      (simulate_experiment default_simulator (1 / 100) 1 True) = Inr ([- 1 / 200], 1)"
    by simp
  show ?thesis using a b unfolding n by blast
qed

section \<open>The analyzer\<close>

text \<open>
  \<open>find_peaks_and_minima\<close> calls \<open>scipy.signal.find_peaks(x, height=h, distance=d)\<close>. The
  library routine is embedded as it computes: the scan for local maxima (a plateau counts
  once, at its middle sample, and the first and last samples never count), the height
  filter \<open>h \<le> x[p]\<close>, and the removal of peaks closer than \<open>d\<close> samples to a higher one.
\<close>

function look_ahead :: "real list \<Rightarrow> nat \<Rightarrow> nat \<Rightarrow> nat" where
  "look_ahead x i i_ahead =
     (if i_ahead < length x - 1 \<and> x ! i_ahead = x ! i then look_ahead x i (Suc i_ahead)
      else i_ahead)"
  by pat_completeness auto
termination
  by (relation "measure (\<lambda>(x, i, i_ahead). length x - 1 - i_ahead)") auto

declare look_ahead.simps [simp del]

lemma look_ahead_step:
  "i_ahead < length x - 1 \<Longrightarrow> x ! i_ahead = x ! i \<Longrightarrow>
   look_ahead x i i_ahead = look_ahead x i (Suc i_ahead)"
  by (subst look_ahead.simps) simp

lemma look_ahead_stop:
  "\<not> (i_ahead < length x - 1 \<and> x ! i_ahead = x ! i) \<Longrightarrow> look_ahead x i i_ahead = i_ahead"
  by (subst look_ahead.simps) auto

lemma look_ahead_ge: "i_ahead \<le> look_ahead x i i_ahead"
proof (induction x i i_ahead rule: look_ahead.induct)
  case (1 x i i_ahead)
  show ?case
  proof (cases "i_ahead < length x - 1 \<and> x ! i_ahead = x ! i")
    case True
    then have "Suc i_ahead \<le> look_ahead x i (Suc i_ahead)" using 1 by blast
    then show ?thesis using True by (simp add: look_ahead_step)
  next
    case False
    then have "look_ahead x i i_ahead = i_ahead" by (rule look_ahead_stop)
    then show ?thesis by simp
  qed
qed

function local_maxima_loop :: "real list \<Rightarrow> nat \<Rightarrow> nat list" where
  "local_maxima_loop x i =
     (if i < length x - 1 then
        (if x ! (i - 1) < x ! i then
           (let i_ahead = look_ahead x i (i + 1) in
            if x ! i_ahead < x ! i
            then ((i + (i_ahead - 1)) div 2) # local_maxima_loop x (i_ahead + 1)
            else local_maxima_loop x (i + 1))
         else local_maxima_loop x (i + 1))
      else [])"
  by pat_completeness auto
termination
proof (relation "measure (\<lambda>(x, i). length x - i)", goal_cases)
  case 1
  show ?case by simp
next
  case (2 x i xa)
  then show ?case using look_ahead_ge [of "i + 1" x i] by simp
next
  case (3 x i xa)
  then show ?case by simp
next
  case (4 x i)
  then show ?case by simp
qed

declare local_maxima_loop.simps [simp del]

definition local_maxima_1d :: "real list \<Rightarrow> nat list" where
  "local_maxima_1d x = local_maxima_loop x 1"

text \<open>
  \<open>_select_by_peak_distance\<close>: the two inner loops that clear the flags of the neighbours
  of peak \<open>j\<close> closer than the distance. The first runs downwards from \<open>j - 1\<close>; its counter
  here is one more than the index, so that it stops at 0.
\<close>

fun suppress_earlier :: "nat list \<Rightarrow> int \<Rightarrow> nat \<Rightarrow> nat \<Rightarrow> bool list \<Rightarrow> bool list" where
  "suppress_earlier peaks d j 0 keep = keep"
| "suppress_earlier peaks d j (Suc m) keep =
     (if int (peaks ! j) - int (peaks ! m) < d
      then suppress_earlier peaks d j m (keep[m := False])
      else keep)"

function suppress_later :: "nat list \<Rightarrow> int \<Rightarrow> nat \<Rightarrow> nat \<Rightarrow> bool list \<Rightarrow> bool list" where
  "suppress_later peaks d j m keep =
     (if m < length peaks \<and> int (peaks ! m) - int (peaks ! j) < d
      then suppress_later peaks d j (Suc m) (keep[m := False])
      else keep)"
  by pat_completeness auto
termination
  by (relation "measure (\<lambda>(peaks, d, j, m, keep). length peaks - m)") auto

declare suppress_later.simps [simp del]

definition suppress_neighbours :: "nat list \<Rightarrow> int \<Rightarrow> nat \<Rightarrow> bool list \<Rightarrow> bool list" where
  "suppress_neighbours peaks d j keep =
     (if \<not> keep ! j then keep
      else suppress_later peaks d j (j + 1) (suppress_earlier peaks d j j keep))"

text \<open>\<open>np.argsort\<close>, as a stable sort of the positions by their priority.\<close>

definition argsort :: "real list \<Rightarrow> nat list" where
  "argsort priority = sort_key (\<lambda>j. priority ! j) [0..<length priority]"

definition select_by_peak_distance :: "nat list \<Rightarrow> real list \<Rightarrow> int \<Rightarrow> bool list" where
  "select_by_peak_distance peaks priority distance =
     fold (suppress_neighbours peaks distance) (rev (argsort priority))
       (replicate (length peaks) True)"

definition find_peaks :: "real list \<Rightarrow> real \<Rightarrow> int \<Rightarrow> nat list" where
  "find_peaks x height distance =
     (let peaks = local_maxima_1d x;
          peaks = filter (\<lambda>p. height \<le> x ! p) peaks;
          keep = select_by_peak_distance peaks (map (\<lambda>p. x ! p) peaks) distance;
          peaks = map (\<lambda>j. peaks ! j) (filter (\<lambda>j. keep ! j) [0..<length peaks])
      in peaks)"

definition find_peaks_and_minima :: "real list \<Rightarrow> nat list \<times> nat list" where
  "find_peaks_and_minima intensity =
     (let peaks = find_peaks intensity (1 / 10) 10;
          minima = find_peaks (map uminus intensity) (- (9 / 10)) 10
      in (peaks, minima))"


section \<open>The scan for local maxima\<close>

lemma look_ahead_equal:
  "i_ahead \<le> q \<Longrightarrow> q < look_ahead x i i_ahead \<Longrightarrow> x ! q = x ! i"
proof (induction x i i_ahead rule: look_ahead.induct)
  case (1 x i i_ahead)
  show ?case
  proof (cases "i_ahead < length x - 1 \<and> x ! i_ahead = x ! i")
    case True
    then have e: "look_ahead x i i_ahead = look_ahead x i (Suc i_ahead)"
      by (simp add: look_ahead_step)
    show ?thesis
    proof (cases "q = i_ahead")
      case True
      then show ?thesis using \<open>i_ahead < length x - 1 \<and> x ! i_ahead = x ! i\<close> by simp
    next
      case False
      then have "Suc i_ahead \<le> q" using "1.prems"(1) by simp
      moreover have "q < look_ahead x i (Suc i_ahead)" using "1.prems"(2) e by simp
      ultimately show ?thesis using "1.IH" True by blast
    qed
  next
    case False
    then have "look_ahead x i i_ahead = i_ahead" by (rule look_ahead_stop)
    then show ?thesis using "1.prems" by simp
  qed
qed

lemma look_ahead_le:
  "i_ahead \<le> length x - 1 \<Longrightarrow> look_ahead x i i_ahead \<le> length x - 1"
proof (induction x i i_ahead rule: look_ahead.induct)
  case (1 x i i_ahead)
  show ?case
  proof (cases "i_ahead < length x - 1 \<and> x ! i_ahead = x ! i")
    case True
    then have "look_ahead x i i_ahead = look_ahead x i (Suc i_ahead)"
      by (simp add: look_ahead_step)
    moreover have "look_ahead x i (Suc i_ahead) \<le> length x - 1"
      using "1.IH" True by simp
    ultimately show ?thesis by simp
  next
    case False
    then have "look_ahead x i i_ahead = i_ahead" by (rule look_ahead_stop)
    then show ?thesis using "1.prems" by simp
  qed
qed

text \<open>
  What the scan reports: the middle \<open>(l + r) div 2\<close> of a run \<open>l..r\<close> of equal samples, away
  from both ends of the array, whose two outer neighbours are strictly lower.
\<close>

definition plateau_peak :: "real list \<Rightarrow> nat \<Rightarrow> bool" where
  "plateau_peak x p \<longleftrightarrow>
     (\<exists>l r. 1 \<le> l \<and> l \<le> r \<and> r + 1 < length x \<and> p = (l + r) div 2 \<and>
        x ! (l - 1) < x ! l \<and> (\<forall>q. l \<le> q \<and> q \<le> r \<longrightarrow> x ! q = x ! l) \<and> x ! (r + 1) < x ! l)"

lemma local_maxima_loop_stop:
  "\<not> i < length x - 1 \<Longrightarrow> local_maxima_loop x i = []"
  by (subst local_maxima_loop.simps) simp

lemma local_maxima_loop_skip:
  "i < length x - 1 \<Longrightarrow>
   \<not> (x ! (i - 1) < x ! i \<and> x ! (look_ahead x i (i + 1)) < x ! i) \<Longrightarrow>
   local_maxima_loop x i = local_maxima_loop x (i + 1)"
  by (subst local_maxima_loop.simps) (auto simp: Let_def)

lemma local_maxima_loop_peak:
  "i < length x - 1 \<Longrightarrow> x ! (i - 1) < x ! i \<Longrightarrow> x ! (look_ahead x i (i + 1)) < x ! i \<Longrightarrow>
   local_maxima_loop x i =
     ((i + (look_ahead x i (i + 1) - 1)) div 2) # local_maxima_loop x (look_ahead x i (i + 1) + 1)"
  by (subst local_maxima_loop.simps) (simp add: Let_def)

lemma local_maxima_loop_spec:
  "1 \<le> i \<Longrightarrow>
   (\<forall>p \<in> set (local_maxima_loop x i). plateau_peak x p \<and> i \<le> p) \<and>
   sorted_wrt (<) (local_maxima_loop x i)"
proof (induction x i rule: local_maxima_loop.induct)
  case (1 x i)
  let ?a = "look_ahead x i (i + 1)"
  show ?case
  proof (cases "i < length x - 1")
    case False
    then show ?thesis by (simp add: local_maxima_loop_stop)
  next
    case inrange: True
    show ?thesis
    proof (cases "x ! (i - 1) < x ! i \<and> x ! ?a < x ! i")
      case False
      then have e: "local_maxima_loop x i = local_maxima_loop x (i + 1)"
        using inrange by (rule local_maxima_loop_skip [rotated])
      have "(\<forall>p \<in> set (local_maxima_loop x (i + 1)). plateau_peak x p \<and> i + 1 \<le> p) \<and>
            sorted_wrt (<) (local_maxima_loop x (i + 1))"
      proof (cases "x ! (i - 1) < x ! i")
        case True
        then have "\<not> x ! ?a < x ! i" using False by simp
        then show ?thesis using "1.IH"(2) [OF inrange True refl] by simp
      next
        case False
        then show ?thesis using "1.IH"(3) [OF inrange] by simp
      qed
      then show ?thesis unfolding e by fastforce
    next
      case True
      then have lt: "x ! (i - 1) < x ! i" and down: "x ! ?a < x ! i" by simp_all
      have e: "local_maxima_loop x i = ((i + (?a - 1)) div 2) # local_maxima_loop x (?a + 1)"
        using inrange lt down by (rule local_maxima_loop_peak)
      have ge: "i + 1 \<le> ?a" by (rule look_ahead_ge)
      have le: "?a \<le> length x - 1" using inrange by (intro look_ahead_le) simp
      have eq: "x ! q = x ! i" if "i \<le> q" "q \<le> ?a - 1" for q
      proof (cases "q = i")
        case True
        then show ?thesis by simp
      next
        case False
        then have "i + 1 \<le> q" "q < ?a" using that ge by simp_all
        then show ?thesis by (rule look_ahead_equal)
      qed
      have c1: "i \<le> ?a - 1" using ge by simp
      have c2: "?a - 1 + 1 < length x" using ge le inrange by simp
      have c3: "x ! (?a - 1 + 1) < x ! i" using down ge by simp
      have c4: "\<forall>q. i \<le> q \<and> q \<le> ?a - 1 \<longrightarrow> x ! q = x ! i" using eq by blast
      have pk: "plateau_peak x ((i + (?a - 1)) div 2)"
        unfolding plateau_peak_def
        using "1.prems" c1 c2 c3 c4 lt by blast
      have ih: "(\<forall>p \<in> set (local_maxima_loop x (?a + 1)). plateau_peak x p \<and> ?a + 1 \<le> p) \<and>
                sorted_wrt (<) (local_maxima_loop x (?a + 1))"
        using "1.IH"(1) [OF inrange lt refl down] by simp
      have mid: "i \<le> (i + (?a - 1)) div 2" "(i + (?a - 1)) div 2 < ?a + 1"
        using ge by simp_all
      have all: "\<forall>p \<in> set (local_maxima_loop x (?a + 1)). plateau_peak x p \<and> i \<le> p"
        using ih ge by fastforce
      have above: "\<forall>p \<in> set (local_maxima_loop x (?a + 1)). (i + (?a - 1)) div 2 < p"
        using ih mid(2) by fastforce
      show ?thesis unfolding e using pk all above ih mid(1) by simp
    qed
  qed
qed

lemma local_maxima_1d_plateau_peak:
  "p \<in> set (local_maxima_1d x) \<Longrightarrow> plateau_peak x p"
  using local_maxima_loop_spec [of 1 x] by (simp add: local_maxima_1d_def)

lemma local_maxima_1d_sorted: "sorted_wrt (<) (local_maxima_1d x)"
  using local_maxima_loop_spec [of 1 x] by (simp add: local_maxima_1d_def)

text \<open>A local maximum in the weak sense: an inner sample not below either neighbour.\<close>

definition local_maximum :: "real list \<Rightarrow> nat \<Rightarrow> bool" where
  "local_maximum x p \<longleftrightarrow>
     0 < p \<and> p + 1 < length x \<and> x ! (p - 1) \<le> x ! p \<and> x ! (p + 1) \<le> x ! p"

lemma plateau_peak_local_maximum:
  assumes "plateau_peak x p"
  shows "local_maximum x p"
proof -
  from assms obtain l r where l: "1 \<le> l" "l \<le> r" "r + 1 < length x" and p: "p = (l + r) div 2"
    and up: "x ! (l - 1) < x ! l" and eq: "\<And>q. l \<le> q \<Longrightarrow> q \<le> r \<Longrightarrow> x ! q = x ! l"
    and down: "x ! (r + 1) < x ! l"
    unfolding plateau_peak_def by blast
  have lp: "l \<le> p" "p \<le> r" using l p by simp_all
  have xp: "x ! p = x ! l" using lp eq by blast
  have left: "x ! (p - 1) \<le> x ! p"
  proof (cases "p = l")
    case True
    then show ?thesis using up xp by simp
  next
    case False
    then have "l \<le> p - 1" "p - 1 \<le> r" using lp by simp_all
    then have "x ! (p - 1) = x ! l" by (rule eq)
    then show ?thesis using xp by simp
  qed
  have right: "x ! (p + 1) \<le> x ! p"
  proof (cases "p = r")
    case True
    then show ?thesis using down xp by simp
  next
    case False
    then have "l \<le> p + 1" "p + 1 \<le> r" using lp by simp_all
    then have "x ! (p + 1) = x ! l" by (rule eq)
    then show ?thesis using xp by simp
  qed
  show ?thesis unfolding local_maximum_def using l lp left right by simp
qed

lemma plateau_peak_not_both:
  assumes "plateau_peak x p" and "plateau_peak (map uminus x) p"
  shows False
proof -
  from assms(1) obtain l r where l: "1 \<le> l" "l \<le> r" "r + 1 < length x" and p: "p = (l + r) div 2"
    and up: "x ! (l - 1) < x ! l" and eq: "\<forall>q. l \<le> q \<and> q \<le> r \<longrightarrow> x ! q = x ! l"
    unfolding plateau_peak_def by blast
  from assms(2) obtain l' r' where l': "1 \<le> l'" "l' \<le> r'" "r' + 1 < length (map uminus x)"
    and p': "p = (l' + r') div 2"
    and up': "map uminus x ! (l' - 1) < map uminus x ! l'"
    and eq': "\<forall>q. l' \<le> q \<and> q \<le> r' \<longrightarrow> map uminus x ! q = map uminus x ! l'"
    unfolding plateau_peak_def by blast
  have len: "r' + 1 < length x" using l'(3) by simp
  have lp: "l \<le> p" "p \<le> r" using l(2) p by linarith+
  have lp': "l' \<le> p" "p \<le> r'" using l'(2) p' by linarith+
  have n1: "map uminus x ! (l' - 1) = - (x ! (l' - 1))" using len l'(2) by (intro nth_map) linarith
  have n2: "map uminus x ! l' = - (x ! l')" using len l'(2) by (intro nth_map) linarith
  have down': "x ! l' < x ! (l' - 1)" using up' unfolding n1 n2 by linarith
  have eqx': "x ! q = x ! l'" if "l' \<le> q" "q \<le> r'" for q
  proof -
    have "map uminus x ! q = - (x ! q)" using len that by (intro nth_map) linarith
    moreover have "map uminus x ! q = map uminus x ! l'" using eq' that by blast
    ultimately show ?thesis unfolding n2 by linarith
  qed
  have "x ! p = x ! l" using eq lp by blast
  moreover have "x ! p = x ! l'" using eqx' lp' by blast
  ultimately have xl: "x ! l = x ! l'" by linarith
  consider "l < l'" | "l' < l" | "l = l'" by linarith
  then show False
  proof cases
    case 1
    then have "l \<le> l' - 1 \<and> l' - 1 \<le> r" using lp lp' by linarith
    then have "x ! (l' - 1) = x ! l" using eq by blast
    then show False using down' xl by linarith
  next
    case 2
    then have "l' \<le> l - 1" "l - 1 \<le> r'" using lp lp' by linarith+
    then have "x ! (l - 1) = x ! l'" by (rule eqx')
    then show False using up xl by linarith
  next
    case 3
    then show False using up down' by simp
  qed
qed

section \<open>The selection by distance\<close>

lemma length_suppress_earlier [simp]:
  "length (suppress_earlier peaks d j m keep) = length keep"
  by (induction m arbitrary: keep) simp_all

lemma length_suppress_later [simp]:
  "length (suppress_later peaks d j m keep) = length keep"
proof (induction peaks d j m keep rule: suppress_later.induct)
  case (1 peaks d j m keep)
  show ?case
  proof (cases "m < length peaks \<and> int (peaks ! m) - int (peaks ! j) < d")
    case True
    then have "suppress_later peaks d j m keep = suppress_later peaks d j (Suc m) (keep[m := False])"
      by (subst suppress_later.simps) simp
    then show ?thesis using 1 True by simp
  next
    case False
    then have "suppress_later peaks d j m keep = keep"
      by (subst suppress_later.simps) auto
    then show ?thesis by simp
  qed
qed

lemma sorted_peaks_le:
  "sorted_wrt (<) peaks \<Longrightarrow> a \<le> b \<Longrightarrow> b < length peaks \<Longrightarrow> peaks ! a \<le> (peaks ! b :: nat)"
proof (cases "a = b")
  case True
  then show ?thesis by simp
next
  case False
  assume s: "sorted_wrt (<) peaks" and "a \<le> b" and b: "b < length peaks"
  then have "a < b" using False by simp
  then have "peaks ! a < peaks ! b" using s b by (simp add: sorted_wrt_iff_nth_less)
  then show ?thesis by simp
qed

lemma suppress_earlier_nth:
  assumes "sorted_wrt (<) peaks" and "m \<le> j" and "j < length peaks" and "q < length keep"
  shows "suppress_earlier peaks d j m keep ! q =
           (keep ! q \<and> \<not> (q < m \<and> int (peaks ! j) - int (peaks ! q) < d))"
  using assms(2,4)
proof (induction m arbitrary: keep)
  case 0
  then show ?case by simp
next
  case (Suc m)
  show ?case
  proof (cases "int (peaks ! j) - int (peaks ! m) < d")
    case True
    have "suppress_earlier peaks d j (Suc m) keep ! q =
            (keep[m := False] ! q \<and> \<not> (q < m \<and> int (peaks ! j) - int (peaks ! q) < d))"
      using True Suc.IH [of "keep[m := False]"] Suc.prems by simp
    also have "\<dots> = (keep ! q \<and> \<not> (q < Suc m \<and> int (peaks ! j) - int (peaks ! q) < d))"
    proof (cases "q = m")
      case True
      then show ?thesis using \<open>int (peaks ! j) - int (peaks ! m) < d\<close> Suc.prems by simp
    next
      case False
      then show ?thesis by (auto simp: less_Suc_eq)
    qed
    finally show ?thesis .
  next
    case False
    have "\<not> (q < Suc m \<and> int (peaks ! j) - int (peaks ! q) < d)"
    proof
      assume a: "q < Suc m \<and> int (peaks ! j) - int (peaks ! q) < d"
      then have "peaks ! q \<le> peaks ! m"
        using assms(1,3) Suc.prems(1) by (intro sorted_peaks_le) simp_all
      then show False using a False by linarith
    qed
    then show ?thesis using False by simp
  qed
qed

lemma suppress_later_nth:
  "sorted_wrt (<) peaks \<Longrightarrow> length keep = length peaks \<Longrightarrow> q < length keep \<Longrightarrow>
   suppress_later peaks d j m keep ! q =
     (keep ! q \<and> \<not> (m \<le> q \<and> int (peaks ! q) - int (peaks ! j) < d))"
proof (induction peaks d j m keep rule: suppress_later.induct)
  case (1 peaks d j m keep)
  show ?case
  proof (cases "m < length peaks \<and> int (peaks ! m) - int (peaks ! j) < d")
    case True
    then have e: "suppress_later peaks d j m keep =
        suppress_later peaks d j (Suc m) (keep[m := False])"
      by (subst suppress_later.simps) simp
    have "suppress_later peaks d j (Suc m) (keep[m := False]) ! q =
            (keep[m := False] ! q \<and> \<not> (Suc m \<le> q \<and> int (peaks ! q) - int (peaks ! j) < d))"
      using "1.IH" [OF True] "1.prems" by simp
    also have "\<dots> = (keep ! q \<and> \<not> (m \<le> q \<and> int (peaks ! q) - int (peaks ! j) < d))"
    proof (cases "q = m")
      case True
      then show ?thesis using \<open>m < length peaks \<and> int (peaks ! m) - int (peaks ! j) < d\<close> "1.prems"
        by simp
    next
      case False
      then show ?thesis by (auto simp: Suc_le_eq le_less)
    qed
    finally show ?thesis unfolding e .
  next
    case False
    then have e: "suppress_later peaks d j m keep = keep"
      by (subst suppress_later.simps) auto
    have "\<not> (m \<le> q \<and> int (peaks ! q) - int (peaks ! j) < d)"
    proof
      assume a: "m \<le> q \<and> int (peaks ! q) - int (peaks ! j) < d"
      have q: "q < length peaks" using "1.prems" by simp
      then have "m < length peaks" using a by simp
      then have far: "\<not> int (peaks ! m) - int (peaks ! j) < d" using False by simp
      have "peaks ! m \<le> peaks ! q" using "1.prems"(1) a q by (intro sorted_peaks_le) simp_all
      then show False using a far by linarith
    qed
    then show ?thesis unfolding e by simp
  qed
qed

text \<open>One visit, on sorted peaks: peak \<open>j\<close> clears exactly its neighbours closer than \<open>d\<close>.\<close>

lemma suppress_neighbours_nth:
  assumes "sorted_wrt (<) peaks" and "length keep = length peaks" and "j < length peaks"
    and "q < length peaks"
  shows "suppress_neighbours peaks d j keep ! q =
           (keep ! q \<and> (keep ! j \<longrightarrow> q = j \<or> d \<le> \<bar>int (peaks ! q) - int (peaks ! j)\<bar>))"
proof (cases "keep ! j")
  case False
  then show ?thesis by (simp add: suppress_neighbours_def)
next
  case True
  let ?e = "suppress_earlier peaks d j j keep"
  have le: "length ?e = length peaks" using assms(2) by simp
  have "suppress_neighbours peaks d j keep ! q = suppress_later peaks d j (j + 1) ?e ! q"
    using True by (simp add: suppress_neighbours_def)
  also have "\<dots> = (?e ! q \<and> \<not> (j + 1 \<le> q \<and> int (peaks ! q) - int (peaks ! j) < d))"
    using assms(1) le assms(4) by (intro suppress_later_nth) simp_all
  also have "?e ! q = (keep ! q \<and> \<not> (q < j \<and> int (peaks ! j) - int (peaks ! q) < d))"
    using assms by (intro suppress_earlier_nth) simp_all
  finally have r: "suppress_neighbours peaks d j keep ! q =
      ((keep ! q \<and> \<not> (q < j \<and> int (peaks ! j) - int (peaks ! q) < d)) \<and>
       \<not> (j + 1 \<le> q \<and> int (peaks ! q) - int (peaks ! j) < d))" .
  consider "q < j" | "q = j" | "j < q" by linarith
  then show ?thesis
  proof cases
    case 1
    then have "peaks ! q \<le> peaks ! j" using assms(1,3) by (intro sorted_peaks_le) simp_all
    then show ?thesis unfolding r using 1 True by auto
  next
    case 2
    then show ?thesis unfolding r using True by simp
  next
    case 3
    then have "peaks ! j \<le> peaks ! q" using assms(1,4) by (intro sorted_peaks_le) simp_all
    then show ?thesis unfolding r using 3 True by auto
  qed
qed

lemma length_suppress_neighbours [simp]:
  "length (suppress_neighbours peaks d j keep) = length keep"
  by (simp add: suppress_neighbours_def)


text \<open>
  The invariant of the visits: every visited peak that is still kept has no other kept peak
  closer than \<open>d\<close>.
\<close>

definition spaced :: "nat list \<Rightarrow> int \<Rightarrow> bool list \<Rightarrow> nat set \<Rightarrow> bool" where
  "spaced peaks d keep P \<longleftrightarrow>
     (\<forall>j \<in> P. \<forall>q < length peaks.
        keep ! j \<and> keep ! q \<and> q \<noteq> j \<longrightarrow> d \<le> \<bar>int (peaks ! q) - int (peaks ! j)\<bar>)"

lemma spaced_step:
  assumes s: "sorted_wrt (<) peaks" and len: "length keep = length peaks"
    and j: "j < length peaks" and P: "P \<subseteq> {..<length peaks}" and inv: "spaced peaks d keep P"
  shows "spaced peaks d (suppress_neighbours peaks d j keep) (insert j P)"
  unfolding spaced_def
proof (intro ballI allI impI)
  fix i q
  assume i: "i \<in> insert j P" and q: "q < length peaks"
    and kept: "suppress_neighbours peaks d j keep ! i \<and> suppress_neighbours peaks d j keep ! q \<and> q \<noteq> i"
  have il: "i < length peaks" using i j P by auto
  have ki: "keep ! i" using kept suppress_neighbours_nth [OF s len j il] by simp
  have kq: "keep ! q" and far: "keep ! j \<longrightarrow> q = j \<or> d \<le> \<bar>int (peaks ! q) - int (peaks ! j)\<bar>"
    using kept suppress_neighbours_nth [OF s len j q] by simp_all
  show "d \<le> \<bar>int (peaks ! q) - int (peaks ! i)\<bar>"
  proof (cases "i = j")
    case True
    then show ?thesis using ki far kept by auto
  next
    case False
    then have "i \<in> P" using i by simp
    then show ?thesis using inv q ki kq kept unfolding spaced_def by blast
  qed
qed

lemma spaced_fold:
  "sorted_wrt (<) peaks \<Longrightarrow> length keep = length peaks \<Longrightarrow> set js \<subseteq> {..<length peaks} \<Longrightarrow>
   P \<subseteq> {..<length peaks} \<Longrightarrow> spaced peaks d keep P \<Longrightarrow>
   spaced peaks d (fold (suppress_neighbours peaks d) js keep) (P \<union> set js) \<and>
   length (fold (suppress_neighbours peaks d) js keep) = length peaks"
proof (induction js arbitrary: keep P)
  case Nil
  then show ?case by simp
next
  case (Cons j js)
  have j: "j < length peaks" using Cons.prems(3) by simp
  have st: "spaced peaks d (suppress_neighbours peaks d j keep) (insert j P)"
    using Cons.prems(1,2) j Cons.prems(4,5) by (rule spaced_step)
  have "spaced peaks d (fold (suppress_neighbours peaks d) js (suppress_neighbours peaks d j keep))
          (insert j P \<union> set js) \<and>
        length (fold (suppress_neighbours peaks d) js (suppress_neighbours peaks d j keep)) =
          length peaks"
    using Cons.prems(1,2,3,4) j st by (intro Cons.IH) simp_all
  then show ?case by simp
qed

lemma set_argsort: "set (argsort priority) = {..<length priority}"
  by (auto simp: argsort_def)

lemma select_by_peak_distance_spaced:
  assumes "sorted_wrt (<) peaks" and "length priority = length peaks"
  shows "spaced peaks d (select_by_peak_distance peaks priority d) {..<length peaks} \<and>
         length (select_by_peak_distance peaks priority d) = length peaks"
proof -
  have "spaced peaks d (replicate (length peaks) True) {}" by (simp add: spaced_def)
  then have "spaced peaks d (fold (suppress_neighbours peaks d) (rev (argsort priority))
               (replicate (length peaks) True)) ({} \<union> set (rev (argsort priority))) \<and>
             length (fold (suppress_neighbours peaks d) (rev (argsort priority))
               (replicate (length peaks) True)) = length peaks"
    using assms by (intro spaced_fold) (simp_all add: set_argsort)
  then show ?thesis by (simp add: select_by_peak_distance_def set_argsort assms(2))
qed

lemma sorted_wrt_map_filter:
  "sorted_wrt (\<lambda>a b. P a \<longrightarrow> P b \<longrightarrow> R (f a) (f b)) xs \<Longrightarrow> sorted_wrt R (map f (filter P xs))"
  by (induction xs) auto

lemma sorted_wrt_map_filter_upt:
  assumes "\<And>i j. i < j \<Longrightarrow> j < n \<Longrightarrow> P i \<Longrightarrow> P j \<Longrightarrow> R (f i) (f j)"
  shows "sorted_wrt R (map f (filter P [0..<n]))"
proof (rule sorted_wrt_map_filter)
  show "sorted_wrt (\<lambda>a b. P a \<longrightarrow> P b \<longrightarrow> R (f a) (f b)) [0..<n]"
    using assms by (simp add: sorted_wrt_iff_nth_less)
qed

text \<open>What \<open>find_peaks\<close> returns.\<close>

lemma find_peaks_spec:
  assumes "0 \<le> d"
  shows "(\<forall>p \<in> set (find_peaks x h d). plateau_peak x p \<and> h \<le> x ! p) \<and>
         sorted_wrt (<) (find_peaks x h d) \<and>
         sorted_wrt (\<lambda>a b. int a + d \<le> int b) (find_peaks x h d)"
proof -
  define pk where "pk = filter (\<lambda>p. h \<le> x ! p) (local_maxima_1d x)"
  define keep where "keep = select_by_peak_distance pk (map (\<lambda>p. x ! p) pk) d"
  have res: "find_peaks x h d = map (\<lambda>j. pk ! j) (filter (\<lambda>j. keep ! j) [0..<length pk])"
    by (simp add: find_peaks_def Let_def pk_def keep_def)
  have spk: "sorted_wrt (<) pk"
    unfolding pk_def using local_maxima_1d_sorted by (rule sorted_wrt_filter)
  have sp: "spaced pk d keep {..<length pk}"
    unfolding keep_def using select_by_peak_distance_spaced [OF spk, of "map (\<lambda>p. x ! p) pk" d]
    by simp
  have mem: "plateau_peak x p \<and> h \<le> x ! p" if "p \<in> set pk" for p
    using that local_maxima_1d_plateau_peak unfolding pk_def by simp
  have a: "\<forall>p \<in> set (find_peaks x h d). plateau_peak x p \<and> h \<le> x ! p"
    unfolding res using mem by auto
  have b: "sorted_wrt (<) (find_peaks x h d)"
    unfolding res
  proof (rule sorted_wrt_map_filter_upt)
    fix i j assume "i < j" "j < length pk"
    then show "pk ! i < pk ! j" using spk by (simp add: sorted_wrt_iff_nth_less)
  qed
  have c: "sorted_wrt (\<lambda>a b. int a + d \<le> int b) (find_peaks x h d)"
    unfolding res
  proof (rule sorted_wrt_map_filter_upt)
    fix i j assume ij: "i < j" "j < length pk" and kept: "keep ! i" "keep ! j"
    have lt: "pk ! i < pk ! j" using ij spk by (simp add: sorted_wrt_iff_nth_less)
    have "d \<le> \<bar>int (pk ! j) - int (pk ! i)\<bar>"
      using sp ij kept unfolding spaced_def by auto
    then show "int (pk ! i) + d \<le> int (pk ! j)" using lt by linarith
  qed
  show ?thesis using a b c by blast
qed

section \<open>Claims on the extrema\<close>

lemma plateau_peak_in_range:
  assumes "plateau_peak x p"
  shows "p < length x"
proof -
  from assms obtain l r where "l \<le> r" "r + 1 < length x" "p = (l + r) div 2"
    unfolding plateau_peak_def by blast
  then show ?thesis by linarith
qed

lemma find_peaks_and_minima_fst:
  "fst (find_peaks_and_minima intensity) = find_peaks intensity (1 / 10) 10"
  by (simp add: find_peaks_and_minima_def Let_def)

lemma find_peaks_and_minima_snd:
  "snd (find_peaks_and_minima intensity) = find_peaks (map uminus intensity) (- (9 / 10)) 10"
  by (simp add: find_peaks_and_minima_def Let_def)

lemma find_peaks_gap:
  "sorted_wrt (\<lambda>a b. a + 10 \<le> b) (find_peaks x h 10)"
proof -
  have "sorted_wrt (\<lambda>a b. int a + 10 \<le> int b) (find_peaks x h 10)"
    using find_peaks_spec [of 10 x h] by simp
  then show ?thesis by (rule sorted_wrt_mono_rel [rotated]) simp
qed

text \<open>
  C9. For every intensity sequence, \<open>find_peaks_and_minima\<close> returns two lists of indices
  such that every peak index is a local maximum of the sequence (an inner sample not below
  either neighbour; of a plateau, the middle sample) whose value is at least the height
  threshold 0.1, every minimum index is a local maximum of the negated sequence, any two
  indices of the same list are at least 10 apart, each list is in ascending order, and
  the two lists share no index.
\<close>

theorem find_peaks_and_minima_extrema:
  "(\<forall>p \<in> set (fst (find_peaks_and_minima intensity)).
      local_maximum intensity p \<and> 1 / 10 \<le> intensity ! p) \<and>
   (\<forall>p \<in> set (snd (find_peaks_and_minima intensity)).
      local_maximum (map uminus intensity) p) \<and>
   sorted_wrt (\<lambda>a b. a + 10 \<le> b) (fst (find_peaks_and_minima intensity)) \<and>
   sorted_wrt (\<lambda>a b. a + 10 \<le> b) (snd (find_peaks_and_minima intensity)) \<and>
   sorted_wrt (<) (fst (find_peaks_and_minima intensity)) \<and>
   sorted_wrt (<) (snd (find_peaks_and_minima intensity)) \<and>
   set (fst (find_peaks_and_minima intensity)) \<inter> set (snd (find_peaks_and_minima intensity)) = {}"
proof -
  let ?pk = "find_peaks intensity (1 / 10) 10"
  let ?mn = "find_peaks (map uminus intensity) (- (9 / 10)) 10"
  have pk: "(\<forall>p \<in> set ?pk. plateau_peak intensity p \<and> 1 / 10 \<le> intensity ! p) \<and> sorted_wrt (<) ?pk"
    using find_peaks_spec [of 10 intensity "1 / 10"] by simp
  have mn: "(\<forall>p \<in> set ?mn. plateau_peak (map uminus intensity) p) \<and> sorted_wrt (<) ?mn"
    using find_peaks_spec [of 10 "map uminus intensity" "- (9 / 10)"] by simp
  have a: "\<forall>p \<in> set ?pk. local_maximum intensity p \<and> 1 / 10 \<le> intensity ! p"
    using pk plateau_peak_local_maximum by blast
  have b: "\<forall>p \<in> set ?mn. local_maximum (map uminus intensity) p"
    using mn plateau_peak_local_maximum by blast
  have c: "set ?pk \<inter> set ?mn = {}"
    using pk mn plateau_peak_not_both by blast
  show ?thesis
    unfolding find_peaks_and_minima_fst find_peaks_and_minima_snd
    using a b c pk mn find_peaks_gap [of intensity "1 / 10"]
      find_peaks_gap [of "map uminus intensity" "- (9 / 10)"] by blast
qed

lemma extrema_example:
  "find_peaks_and_minima
     [0, 1 / 2, 0, 1 / 5, 0, 0, 0, 0, 0, 0, 0, 0, 0, 3 / 10, 3 / 10, 3 / 10, 1 / 10, 1, 1] =
   ([1, 14], [8])"
  by code_simp

theorem find_peaks_and_minima_extrema_witness:
  "find_peaks_and_minima
     [0, 1 / 2, 0, 1 / 5, 0, 0, 0, 0, 0, 0, 0, 0, 0, 3 / 10, 3 / 10, 3 / 10, 1 / 10, 1, 1] =
     ([1, 14], [8]) \<and>
   local_maximum
     [0, 1 / 2, 0, 1 / 5, 0, 0, 0, 0, 0, 0, 0, 0, 0, 3 / 10, 3 / 10, 3 / 10, 1 / 10, 1, 1] 14 \<and>
   local_maximum
     (map uminus [0, 1 / 2, 0, 1 / 5, 0, 0, 0, 0, 0, 0, 0, 0, 0, 3 / 10, 3 / 10, 3 / 10, 1 / 10, 1, 1]) 8"
proof -
  let ?w = "[0, 1 / 2, 0, 1 / 5, 0, 0, 0, 0, 0, 0, 0, 0, 0, 3 / 10, 3 / 10, 3 / 10, 1 / 10, 1, 1 :: real]"
  note t = find_peaks_and_minima_extrema [of ?w, unfolded extrema_example fst_conv snd_conv]
  have "(14::nat) \<in> set [1, 14]" by simp
  then have a: "local_maximum ?w 14" using t by blast
  have "(8::nat) \<in> set [8]" by simp
  then have b: "local_maximum (map uminus ?w) 8" using t by blast
  show ?thesis using extrema_example a b by blast
qed

text \<open>
  C10. For every intensity sequence, every index of the minima list has an intensity of at
  most 0.9: the minima pass is the peak search on the negated sequence with the fixed
  height threshold \<open>-0.9\<close>, so an index whose intensity exceeds 0.9 is never in the
  minima list, however pronounced the minimum there.
\<close>

theorem minima_at_most_nine_tenths:
  "(\<forall>p \<in> set (snd (find_peaks_and_minima intensity)).
      p < length intensity \<and> intensity ! p \<le> 9 / 10) \<and>
   (\<forall>p. p < length intensity \<and> 9 / 10 < intensity ! p \<longrightarrow>
      p \<notin> set (snd (find_peaks_and_minima intensity)))"
proof -
  let ?mn = "find_peaks (map uminus intensity) (- (9 / 10)) 10"
  have mn: "\<forall>p \<in> set ?mn. plateau_peak (map uminus intensity) p \<and>
      - (9 / 10) \<le> map uminus intensity ! p"
    using find_peaks_spec [of 10 "map uminus intensity" "- (9 / 10)"] by simp
  have a: "p < length intensity \<and> intensity ! p \<le> 9 / 10" if "p \<in> set ?mn" for p
  proof -
    have "p < length (map uminus intensity)" using mn that plateau_peak_in_range by blast
    then have l: "p < length intensity" by simp
    then have "map uminus intensity ! p = - (intensity ! p)" by (rule nth_map)
    moreover have "- (9 / 10) \<le> map uminus intensity ! p" using mn that by blast
    ultimately show ?thesis using l by linarith
  qed
  show ?thesis unfolding find_peaks_and_minima_snd using a by fastforce
qed

lemma minima_example:
  "find_peaks_and_minima [1, 19 / 20, 1, 1 / 2, 1] = ([2], [3])"
  by code_simp

theorem minima_at_most_nine_tenths_witness:
  "find_peaks_and_minima [1, 19 / 20, 1, 1 / 2, 1] = ([2], [3]) \<and>
   [1, 19 / 20, 1, 1 / 2, 1 :: real] ! 3 \<le> 9 / 10 \<and>
   local_maximum (map uminus [1, 19 / 20, 1, 1 / 2, 1]) 1 \<and>
   9 / 10 < [1, 19 / 20, 1, 1 / 2, 1 :: real] ! 1 \<and>
   1 \<notin> set (snd (find_peaks_and_minima [1, 19 / 20, 1, 1 / 2, 1]))"
proof -
  let ?w = "[1, 19 / 20, 1, 1 / 2, 1 :: real]"
  note t = minima_at_most_nine_tenths [of ?w]
  have "(3::nat) \<in> set (snd (find_peaks_and_minima ?w))" by (simp add: minima_example)
  then have a: "?w ! 3 \<le> 9 / 10" using t by blast
  have b: "local_maximum (map uminus ?w) 1" by (simp add: local_maximum_def)
  have c: "1 < length ?w \<and> 9 / 10 < ?w ! 1" by simp
  then have d: "1 \<notin> set (snd (find_peaks_and_minima ?w))" using t by blast
  show ?thesis using minima_example a b c d by blast
qed

section \<open>The comparison with theory\<close>

record InterferenceAnalyzer =
  experimental_data :: "real list option"
  theoretical_data :: "npfloat list option"

definition InterferenceAnalyzer_init :: InterferenceAnalyzer where
  "InterferenceAnalyzer_init = \<lparr>experimental_data = None, theoretical_data = None\<rparr>"

text \<open>The dictionary that \<open>compare_with_theory\<close> returns.\<close>

record ComparisonResult =
  correlation :: npfloat
  rms_error :: npfloat
  experimental_peaks :: "nat list"
  theoretical_peaks :: "nat list"
  experimental_minima :: "nat list"
  theoretical_minima :: "nat list"

text \<open>The finite values of an array, when all of them are finite.\<close>

fun finite_values :: "npfloat list \<Rightarrow> real list option" where
  "finite_values [] = Some []"
| "finite_values (Finite v # vs) = map_option ((#) v) (finite_values vs)"
| "finite_values (_ # vs) = None"

text \<open>
  \<open>np.corrcoef(x, y)[0, 1]\<close>. The two arrays are stacked first, which raises when their
  lengths differ. Then the covariance matrix is taken with the factor \<open>1 / (n - 1)\<close>, the
  entry is divided by the two standard deviations in turn and clipped to \<open>[-1, 1]\<close>. A
  division by zero gives \<open>nan\<close> here as everywhere, and an entry of \<open>y\<close> that is not finite
  makes the result \<open>nan\<close>.
\<close>

definition np_clip :: "npfloat \<Rightarrow> npfloat" where
  "np_clip v = (case v of Finite r \<Rightarrow> Finite (min 1 (max (- 1) r))
                | PosInf \<Rightarrow> Finite 1 | NegInf \<Rightarrow> Finite (- 1) | NaN \<Rightarrow> NaN)"

definition pearson :: "real list \<Rightarrow> real list \<Rightarrow> npfloat" where
  "pearson x y =
     (let n = length x in
      if n \<le> 1 then NaN
      else
        let mx = sum_list x / real n;
            my = sum_list y / real n;
            dx = map (\<lambda>v. v - mx) x;
            dy = map (\<lambda>v. v - my) y;
            fact = real n - 1;
            c00 = sum_list (map2 (*) dx dx) / fact;
            c01 = sum_list (map2 (*) dx dy) / fact;
            c11 = sum_list (map2 (*) dy dy) / fact
        in np_clip (case np_divide c01 (sqrt c00) of
                      Finite r \<Rightarrow> np_divide r (sqrt c11)
                    | v \<Rightarrow> v))"

definition np_corrcoef :: "real list \<Rightarrow> npfloat list \<Rightarrow> py_error + npfloat" where
  "np_corrcoef x y =
     (if length x \<noteq> length y
      then Inl (ValueError
        ''all the input array dimensions except for the concatenation axis must match exactly'')
      else Inr (case finite_values y of None \<Rightarrow> NaN | Some ys \<Rightarrow> pearson x ys))"

text \<open>
  \<open>np.sqrt(np.mean((x - y)**2))\<close> on two arrays of one length: \<open>nan\<close> when an entry of \<open>y\<close>
  is \<open>nan\<close> (or the arrays are empty), \<open>inf\<close> when one is infinite and none is \<open>nan\<close>.
\<close>

definition np_rms :: "real list \<Rightarrow> npfloat list \<Rightarrow> npfloat" where
  "np_rms x y =
     (case finite_values y of
        Some ys \<Rightarrow>
          (if x = [] then NaN
           else Finite (sqrt (sum_list (map2 (\<lambda>a b. (a - b) ^ 2) x ys) / real (length x))))
      | None \<Rightarrow> (if NaN \<in> set y then NaN else PosInf))"

text \<open>
  The extrema of the theoretical array. Its entries are the quotients of the
  normalisation, all finite or all \<open>nan\<close>; on \<open>nan\<close> every comparison of the scan is false and
  no extremum is found.
\<close>

definition find_peaks_and_minima_np :: "npfloat list \<Rightarrow> nat list \<times> nat list" where
  "find_peaks_and_minima_np intensity =
     (case finite_values intensity of
        Some values \<Rightarrow> find_peaks_and_minima values
      | None \<Rightarrow> ([], []))"

text \<open>The body of \<open>compare_with_theory\<close> from the correlation on, on the two arrays.\<close>

definition compare_sequences :: "real list \<Rightarrow> npfloat list \<Rightarrow> py_error + ComparisonResult" where
  "compare_sequences experimental theoretical =
     (case np_corrcoef experimental theoretical of
        Inl e \<Rightarrow> Inl e
      | Inr corr \<Rightarrow>
          (let rms = np_rms experimental theoretical;
               (exp_peaks, exp_minima) = find_peaks_and_minima experimental;
               (theo_peaks, theo_minima) = find_peaks_and_minima_np theoretical
           in Inr \<lparr>correlation = corr, rms_error = rms,
                    experimental_peaks = exp_peaks, theoretical_peaks = theo_peaks,
                    experimental_minima = exp_minima, theoretical_minima = theo_minima\<rparr>))"

text \<open>
  \<open>compare_with_theory\<close>: the guard on the stored data, the theoretical pattern at the
  resolution \<open>len(self.experimental_data)\<close> (double slit, the default), its storage in the
  analyzer, and the comparison.
\<close>

definition compare_with_theory ::
  "InterferenceAnalyzer \<Rightarrow> DoubleslitSimulator \<Rightarrow> real \<Rightarrow>
   py_error + (InterferenceAnalyzer \<times> ComparisonResult)" where
  "compare_with_theory self simulator screen_width =
     (case experimental_data self of
        None \<Rightarrow> Inl (ValueError ''No experimental data loaded'')
      | Some experimental \<Rightarrow>
          (let resolution = int (length experimental) in
           case simulate_experiment simulator screen_width resolution True of
             Inl e \<Rightarrow> Inl e
           | Inr (y_pos, theoretical) \<Rightarrow>
               (let self = self\<lparr>theoretical_data := Some theoretical\<rparr> in
                case compare_sequences experimental theoretical of
                  Inl e \<Rightarrow> Inl e
                | Inr result \<Rightarrow> Inr (self, result))))"



lemma compare_with_theory_no_data:
  "experimental_data self = None \<Longrightarrow>
   compare_with_theory self simulator screen_width = Inl (ValueError ''No experimental data loaded'')"
  by (simp add: compare_with_theory_def)

lemma compare_with_theory_empty:
  "experimental_data self = Some [] \<Longrightarrow>
   compare_with_theory self simulator screen_width =
     Inl (ValueError ''zero-size array to reduction operation maximum which has no identity'')"
  by (simp add: compare_with_theory_def simulate_experiment_zero)



section \<open>Claims on the comparison\<close>



text \<open>
  C8. Called before any experimental sequence is loaded (the stored data is \<open>None\<close>), or
  on an empty experimental sequence, \<open>compare_with_theory\<close> fails with a \<open>ValueError\<close>, the
  only kind of error the code has, and returns no result: the one it raises itself in the
  first case, the one of \<open>np.max\<close> on the empty theoretical pattern in the second.
\<close>

theorem compare_with_theory_without_data:
  "(experimental_data self = None \<longrightarrow>
      compare_with_theory self simulator screen_width =
        Inl (ValueError ''No experimental data loaded'')) \<and>
   (experimental_data self = Some [] \<longrightarrow>
      compare_with_theory self simulator screen_width =
        Inl (ValueError ''zero-size array to reduction operation maximum which has no identity''))"
  using compare_with_theory_no_data compare_with_theory_empty by blast

theorem compare_with_theory_without_data_witness:
  "compare_with_theory InterferenceAnalyzer_init default_simulator (1 / 100) =
     Inl (ValueError ''No experimental data loaded'') \<and>
   compare_with_theory (InterferenceAnalyzer_init\<lparr>experimental_data := Some []\<rparr>)
       default_simulator (1 / 100) =
     Inl (ValueError ''zero-size array to reduction operation maximum which has no identity'')"
proof -
  have a: "experimental_data InterferenceAnalyzer_init = None"
    by (simp add: InterferenceAnalyzer_init_def)
  have b: "experimental_data (InterferenceAnalyzer_init\<lparr>experimental_data := Some []\<rparr>) = Some []"
    by simp
  show ?thesis
    using compare_with_theory_without_data [of InterferenceAnalyzer_init default_simulator "1 / 100"]
      compare_with_theory_without_data
        [of "InterferenceAnalyzer_init\<lparr>experimental_data := Some []\<rparr>" default_simulator "1 / 100"]
      a b by blast
qed

end
